theory Spec2Isabelle
  imports Main "HOL-Library.Word"
begin

section \<open>JavaScript strings\<close>

text \<open>
  A JavaScript string is modelled as a \<^typ>\<open>string\<close>, one \<^typ>\<open>char\<close> per code unit, so
  the model covers the code units U+0000 to U+00FF (ASCII and Latin-1). Inside that range
  \<open>toLowerCase\<close> maps \<open>A\<close>-\<open>Z\<close> and the Latin-1 capitals (U+00C0 to U+00DE without the
  multiplication sign U+00D7) to the letter 32 places further on, and \<open>trim\<close> strips
  tab, line feed, vertical tab, form feed, carriage return, space and no-break space.
\<close>

definition toLowerCase_char :: "char \<Rightarrow> char" where
  "toLowerCase_char c =
     (let n = (of_char c :: nat) in
      if (65 \<le> n \<and> n \<le> 90) \<or> (192 \<le> n \<and> n \<le> 222 \<and> n \<noteq> 215)
      then char_of (n + 32) else c)"

definition toLowerCase :: "string \<Rightarrow> string" where
  "toLowerCase s = map toLowerCase_char s"

definition is_space :: "char \<Rightarrow> bool" where
  "is_space c = ((of_char c :: nat) \<in> {9, 10, 11, 12, 13, 32, 160})"

definition trim :: "string \<Rightarrow> string" where
  "trim s = rev (dropWhile is_space (rev (dropWhile is_space s)))"

text \<open>The character classes \<open>[a-z0-9]\<close> and, with the \<open>i\<close> flag, \<open>[a-z0-9]\<close> on either case.\<close>

definition lower_alnum :: "char \<Rightarrow> bool" where
  "lower_alnum c =
     (let n = (of_char c :: nat) in (97 \<le> n \<and> n \<le> 122) \<or> (48 \<le> n \<and> n \<le> 57))"

definition any_alnum :: "char \<Rightarrow> bool" where
  "any_alnum c = (lower_alnum c \<or> (let n = (of_char c :: nat) in 65 \<le> n \<and> n \<le> 90))"

text \<open>
  \<open>s.replace(/[^...]+/g, '-')\<close>: every maximal run of characters outside the class \<open>ok\<close>
  becomes one hyphen.
\<close>

function replace_runs :: "(char \<Rightarrow> bool) \<Rightarrow> string \<Rightarrow> string" where
  "replace_runs ok [] = []"
| "replace_runs ok (c # cs) =
     (if ok c then c # replace_runs ok cs
      else CHR ''-'' # replace_runs ok (dropWhile (\<lambda>x. \<not> ok x) cs))"
  by pat_completeness auto
termination
  by (relation "measure (\<lambda>(ok, s). length s)")
     (auto simp: length_dropWhile_le less_Suc_eq_le)

text \<open>
  \<open>s.replace(/(^-|-$)/g, '')\<close>: a hyphen at the very start is removed, and a hyphen at the
  very end (a different character from the first match) is removed.
\<close>

definition strip_trailing :: "string \<Rightarrow> string" where
  "strip_trailing s = (if s \<noteq> [] \<and> last s = CHR ''-'' then butlast s else s)"

definition strip_edges :: "string \<Rightarrow> string" where
  "strip_edges s =
     (case s of
        [] \<Rightarrow> []
      | c # cs \<Rightarrow> if c = CHR ''-'' then strip_trailing cs else strip_trailing (c # cs))"

text \<open>\<open>s.split(sep)\<close> for a one-character separator, and \<open>parts.join(sep)\<close>.\<close>

fun split :: "char \<Rightarrow> string \<Rightarrow> string list" where
  "split sep [] = [[]]"
| "split sep (c # cs) =
     (if c = sep then [] # split sep cs
      else (case split sep cs of
              [] \<Rightarrow> [[c]]
            | w # ws \<Rightarrow> (c # w) # ws))"

fun join :: "string \<Rightarrow> string list \<Rightarrow> string" where
  "join sep [] = []"
| "join sep [w] = w"
| "join sep (w # ws) = w @ sep @ join sep ws"

text \<open>\<open>s.split('\n')[0]\<close>: the part of \<open>s\<close> before its first line feed.\<close>

definition first_line :: "string \<Rightarrow> string" where
  "first_line s = (case split (CHR 0x0A) s of [] \<Rightarrow> [] | l # _ \<Rightarrow> l)"

text \<open>\<open>String(n)\<close> for a natural number: its decimal digits.\<close>

definition digit_char :: "nat \<Rightarrow> char" where
  "digit_char d = char_of (48 + d)"

fun String_of_nat :: "nat \<Rightarrow> string" where
  "String_of_nat n =
     (if n < 10 then [digit_char n] else String_of_nat (n div 10) @ [digit_char (n mod 10)])"

declare String_of_nat.simps [simp del]

section \<open>The name generator (\<open>src/utils/nameGenerator.js\<close>)\<close>

definition slugify :: "string \<Rightarrow> string" where
  "slugify s = take 60 (strip_edges (replace_runs lower_alnum (toLowerCase s)))"

text \<open>
  The argument object of \<open>generateTag\<close>. A property the caller leaves out is \<open>None\<close>
  (\<open>undefined\<close>); a string is falsy when it is empty.
\<close>

record info =
  tag_of :: string
  text_of :: "string option"
  aria_of :: "string option"
  placeholder_of :: "string option"
  alt_of :: "string option"
  compPath_of :: "string option"
  index_of :: "nat option"

definition str_or :: "string option \<Rightarrow> string \<Rightarrow> string" where
  "str_or a b = (case a of None \<Rightarrow> b | Some s \<Rightarrow> if s \<noteq> [] then s else b)"

definition role_of_tag :: "string \<Rightarrow> string" where
  "role_of_tag t = (if t = ''a'' then ''link'' else t)"

definition info_text :: "info \<Rightarrow> string" where
  "info_text i =
     trim (str_or (text_of i) (str_or (aria_of i) (str_or (placeholder_of i)
       (str_or (alt_of i) []))))"

definition text_token :: "string \<Rightarrow> string" where
  "text_token t = join '' '' (take 5 (split (CHR '' '') (trim (first_line t))))"

definition generateTag_parts :: "info \<Rightarrow> string list" where
  "generateTag_parts i =
     (case compPath_of i of
        None \<Rightarrow> []
      | Some p \<Rightarrow> if p \<noteq> [] then [toLowerCase (replace_runs any_alnum p)] else [])
     @ [role_of_tag (tag_of i)]
     @ (if info_text i \<noteq> [] then [text_token (info_text i)] else [])
     @ (case index_of i of None \<Rightarrow> [] | Some n \<Rightarrow> [String_of_nat n])"

definition generateTag :: "info \<Rightarrow> string" where
  "generateTag i = slugify (join ''-'' (generateTag_parts i))"

text \<open>The call the scanner makes: \<open>generateTag({ tag, text, index })\<close>.\<close>

definition tag_info :: "string \<Rightarrow> string \<Rightarrow> nat \<Rightarrow> info" where
  "tag_info t x n =
     \<lparr>tag_of = t, text_of = Some x, aria_of = None, placeholder_of = None, alt_of = None,
      compPath_of = None, index_of = Some n\<rparr>"

section \<open>The syntax tree the scanner walks\<close>

text \<open>
  The part of Babel's JSX syntax tree that \<open>extractSuggestionsFromAST\<close> reads. An
  expression that is not a literal, a fragment and a spread child are opaque to the
  scanner apart from the JSX elements inside them, which the visitor reaches: each is
  represented by its outermost JSX elements in source order. The \<open>value\<close> of a
  \<open>NumericLiteral\<close> is a double; the model holds the integers from 0 to \<open>2^53 - 1\<close>, a
  \<open>53 word\<close>, each of which is a double that \<open>String\<close> prints as its decimal digits.
  Numeric literals outside that range and other literal nodes with a \<open>value\<close>
  property are not modelled.
\<close>

datatype jsx_name =
    JSXIdentifier string
  | JSXMemberExpression jsx_name string
  | JSXNamespacedName string string

datatype attr_name =
    AttrIdentifier string
  | AttrNamespacedName string string

datatype expression =
    StringLiteral string
  | NumericLiteral "53 word"
  | BooleanLiteral bool
  | OtherExpression "jsx_element list"
and attr_value =
    NoValue
  | StringLiteralValue string
  | JSXExpressionContainerValue expression
  | JSXElementValue jsx_element
and jsx_attribute =
    JSXAttribute attr_name attr_value
  | JSXSpreadAttribute expression
and jsx_child =
    JSXText string
  | JSXExpressionContainer expression
  | JSXChildElement jsx_element
  | JSXFragment "jsx_element list"
  | JSXSpreadChild expression
and jsx_element =
    JSXElement jsx_name "jsx_attribute list" "jsx_child list" "nat option"

text \<open>
  The values the scanner's local variables hold: a string, a number, a boolean, or
  \<open>null\<close>/\<open>undefined\<close> (which the code never tells apart).
\<close>

datatype js_value = Str string | Num nat | Bool bool | Nullish

fun truthy :: "js_value \<Rightarrow> bool" where
  "truthy (Str s) = (s \<noteq> [])"
| "truthy (Num n) = (n \<noteq> 0)"
| "truthy (Bool b) = b"
| "truthy Nullish = False"

definition js_or :: "js_value \<Rightarrow> js_value \<Rightarrow> js_value" where
  "js_or a b = (if truthy a then a else b)"

fun toString :: "js_value \<Rightarrow> string" where
  "toString (Str s) = s"
| "toString (Num n) = String_of_nat n"
| "toString (Bool b) = (if b then ''true'' else ''false'')"
| "toString Nullish = []"

text \<open>\<open>attr.name.name\<close> compared with a string: a namespaced name holds a node there.\<close>

fun attr_name_name :: "jsx_attribute \<Rightarrow> string option" where
  "attr_name_name (JSXAttribute (AttrIdentifier n) v) = Some n"
| "attr_name_name (JSXAttribute (AttrNamespacedName ns n) v) = None"
| "attr_name_name (JSXSpreadAttribute e) = None"

text \<open>\<open>attr.value?.value\<close> and \<open>attr.value?.expression?.value\<close>.\<close>

fun expression_value :: "expression \<Rightarrow> js_value" where
  "expression_value (StringLiteral s) = Str s"
| "expression_value (NumericLiteral n) = Num (unat n)"
| "expression_value (BooleanLiteral b) = Bool b"
| "expression_value (OtherExpression es) = Nullish"

fun value_value :: "jsx_attribute \<Rightarrow> js_value" where
  "value_value (JSXAttribute n (StringLiteralValue s)) = Str s"
| "value_value a = Nullish"

fun value_expression_value :: "jsx_attribute \<Rightarrow> js_value" where
  "value_expression_value (JSXAttribute n (JSXExpressionContainerValue e)) = expression_value e"
| "value_expression_value a = Nullish"

section \<open>The scanner (\<open>src/static/scanner.js\<close>)\<close>

record suggestion =
  file_of :: string
  line_of :: "nat option"
  tag_name :: string
  text_hint :: string
  dataCy :: string

definition interactive_tags :: "string list" where
  "interactive_tags = [''button'', ''a'', ''input'', ''select'', ''textarea'']"

text \<open>\<open>nameNode?.type === "JSXIdentifier" && /^[A-Z]/.test(nameNode.name)\<close>\<close>

definition starts_upper :: "string \<Rightarrow> bool" where
  "starts_upper s =
     (case s of [] \<Rightarrow> False | c # _ \<Rightarrow> 65 \<le> (of_char c :: nat) \<and> (of_char c :: nat) \<le> 90)"

fun isComponent :: "jsx_name \<Rightarrow> bool" where
  "isComponent (JSXIdentifier n) = starts_upper n"
| "isComponent nm = False"

fun tagOf :: "jsx_name \<Rightarrow> string option" where
  "tagOf (JSXIdentifier n) = Some (toLowerCase n)"
| "tagOf nm = None"

definition hasRoleButton :: "jsx_attribute list \<Rightarrow> bool" where
  "hasRoleButton attrs =
     list_ex (\<lambda>attr. attr_name_name attr = Some ''role'' \<and> value_value attr = Str ''button'') attrs"

definition isInteractive :: "string option \<Rightarrow> jsx_attribute list \<Rightarrow> bool" where
  "isInteractive tag attrs =
     ((case tag of None \<Rightarrow> False | Some t \<Rightarrow> t \<in> set interactive_tags) \<or> hasRoleButton attrs)"

definition hasDataCy :: "jsx_attribute list \<Rightarrow> bool" where
  "hasDataCy attrs = list_ex (\<lambda>a. attr_name_name a = Some ''data-cy'') attrs"

text \<open>The loop over \<open>path.node.children\<close>, left at the first child that sets \<open>text\<close>.\<close>

fun childText :: "jsx_child list \<Rightarrow> string" where
  "childText [] = []"
| "childText (JSXText v # chs) = (if trim v \<noteq> [] then trim v else childText chs)"
| "childText (JSXExpressionContainer (StringLiteral s) # chs) = s"
| "childText (ch # chs) = childText chs"

text \<open>The four variables \<open>attrs.forEach\<close> assigns, each starting as \<open>null\<close>.\<close>

record hints =
  aria :: js_value
  placeholder :: js_value
  alt :: js_value
  title :: js_value

definition attr_val :: "jsx_attribute \<Rightarrow> js_value" where
  "attr_val attr = js_or (value_value attr) (js_or (value_expression_value attr) Nullish)"

definition forEach_step :: "jsx_attribute \<Rightarrow> hints \<Rightarrow> hints" where
  "forEach_step attr h =
     (case attr of
        JSXSpreadAttribute e \<Rightarrow> h
      | JSXAttribute n v \<Rightarrow>
          (let nm = attr_name_name attr;
               val = attr_val attr;
               h1 = (if nm = Some ''aria-label'' then h\<lparr>aria := val\<rparr> else h);
               h2 = (if nm = Some ''placeholder'' then h1\<lparr>placeholder := val\<rparr> else h1);
               h3 = (if nm = Some ''alt'' then h2\<lparr>alt := val\<rparr> else h2)
           in if nm = Some ''title'' then h3\<lparr>title := val\<rparr> else h3))"

definition attr_hints :: "jsx_attribute list \<Rightarrow> hints" where
  "attr_hints attrs =
     fold forEach_step attrs \<lparr>aria = Nullish, placeholder = Nullish, alt = Nullish, title = Nullish\<rparr>"

definition tag_value :: "string option \<Rightarrow> js_value" where
  "tag_value tag = (case tag of None \<Rightarrow> Nullish | Some t \<Rightarrow> Str t)"

definition nameSource :: "string option \<Rightarrow> jsx_attribute list \<Rightarrow> jsx_child list \<Rightarrow> string" where
  "nameSource tag attrs chs =
     (let h = attr_hints attrs in
      toString (js_or (Str (childText chs)) (js_or (aria h) (js_or (placeholder h)
        (js_or (alt h) (js_or (title h) (js_or (tag_value tag) (Str []))))))))"

text \<open>\<open>tag || "el"\<close> and \<open>opening.loc?.start?.line || null\<close>\<close>

definition tag_or_el :: "string option \<Rightarrow> string" where
  "tag_or_el tag = toString (js_or (tag_value tag) (Str ''el''))"

definition loc_line :: "nat option \<Rightarrow> nat option" where
  "loc_line l = (case l of None \<Rightarrow> None | Some n \<Rightarrow> if n \<noteq> 0 then Some n else None)"

text \<open>
  The body of \<open>visitJSXElement\<close> up to its call of \<open>this.traverse\<close>: the suggestions
  after the element has been looked at. Every path through it, the early returns
  included, goes on to \<open>this.traverse(path)\<close>.
\<close>

fun classify :: "string \<Rightarrow> jsx_element \<Rightarrow> suggestion list \<Rightarrow> suggestion list" where
  "classify file (JSXElement nameNode attrs chs loc) suggestions =
     (if isComponent nameNode then suggestions
      else let tag = tagOf nameNode in
        if \<not> isInteractive tag attrs then suggestions
        else if hasDataCy attrs then suggestions
        else let ns = nameSource tag attrs chs in
          suggestions @
            [\<lparr>file_of = file, line_of = loc_line loc, tag_name = tag_or_el tag, text_hint = ns,
              dataCy = generateTag (tag_info (tag_or_el tag) ns (length suggestions))\<rparr>])"

text \<open>
  \<open>recast.types.visit\<close> with the \<open>visitJSXElement\<close> method: the method runs on a JSX
  element, and its \<open>this.traverse(path)\<close> goes through the opening element (the
  attributes) and then the children, in source order, running the method on every JSX
  element met.
\<close>

fun visitJSXElement :: "string \<Rightarrow> jsx_element \<Rightarrow> suggestion list \<Rightarrow> suggestion list"
and traverse_expression :: "string \<Rightarrow> expression \<Rightarrow> suggestion list \<Rightarrow> suggestion list"
and traverse_attribute :: "string \<Rightarrow> jsx_attribute \<Rightarrow> suggestion list \<Rightarrow> suggestion list"
and traverse_child :: "string \<Rightarrow> jsx_child \<Rightarrow> suggestion list \<Rightarrow> suggestion list"
where
  "visitJSXElement file (JSXElement nameNode attrs chs loc) suggestions =
     fold (traverse_child file) chs
       (fold (traverse_attribute file) attrs
         (classify file (JSXElement nameNode attrs chs loc) suggestions))"
| "traverse_expression file (OtherExpression es) suggestions =
     fold (visitJSXElement file) es suggestions"
| "traverse_expression file (StringLiteral s) suggestions = suggestions"
| "traverse_expression file (NumericLiteral n) suggestions = suggestions"
| "traverse_expression file (BooleanLiteral b) suggestions = suggestions"
| "traverse_attribute file (JSXAttribute n (JSXExpressionContainerValue e)) suggestions =
     traverse_expression file e suggestions"
| "traverse_attribute file (JSXAttribute n (JSXElementValue el)) suggestions =
     visitJSXElement file el suggestions"
| "traverse_attribute file (JSXAttribute n NoValue) suggestions = suggestions"
| "traverse_attribute file (JSXAttribute n (StringLiteralValue s)) suggestions = suggestions"
| "traverse_attribute file (JSXSpreadAttribute e) suggestions =
     traverse_expression file e suggestions"
| "traverse_child file (JSXText v) suggestions = suggestions"
| "traverse_child file (JSXExpressionContainer e) suggestions =
     traverse_expression file e suggestions"
| "traverse_child file (JSXChildElement el) suggestions = visitJSXElement file el suggestions"
| "traverse_child file (JSXFragment es) suggestions = fold (visitJSXElement file) es suggestions"
| "traverse_child file (JSXSpreadChild e) suggestions = traverse_expression file e suggestions"

text \<open>
  \<open>extractSuggestionsFromAST(ast, code, file)\<close>: the file's syntax tree is given by its
  outermost JSX elements in source order; \<open>suggestions\<close> starts empty.
\<close>

definition extractSuggestionsFromAST :: "jsx_element list \<Rightarrow> string \<Rightarrow> string \<Rightarrow> suggestion list" where
  "extractSuggestionsFromAST ast code file = fold (visitJSXElement file) ast []"

text \<open>
  The loop of \<open>run\<close> over the relevant changed files: a file that is missing on disk or
  fails to parse is passed over, the suggestions of every other file are appended to
  \<open>allSuggestions\<close>.
\<close>

datatype source_file =
    Missing
  | ParseFailed
  | Parsed "jsx_element list" string

fun allSuggestions :: "(string \<times> source_file) list \<Rightarrow> suggestion list \<Rightarrow> suggestion list" where
  "allSuggestions [] acc = acc"
| "allSuggestions ((file, Missing) # fs) acc = allSuggestions fs acc"
| "allSuggestions ((file, ParseFailed) # fs) acc = allSuggestions fs acc"
| "allSuggestions ((file, Parsed ast code) # fs) acc =
     allSuggestions fs (acc @ extractSuggestionsFromAST ast code file)"

section \<open>The second listing of the scanner\<close>

text \<open>
  \<open>scanner.js\<close> holds a second listing of the same program (its lines 247 to 417),
  whose \<open>visitJSXElement\<close> differs in three places: it has no component check, it takes
  the tag of a member expression from its property name, and it reads a hint attribute
  only from a non-empty string literal, keeping the earlier value otherwise. Its
  \<open>line\<close> is \<open>opening.loc.start.line\<close> as it stands. The visitor around it is the same.
\<close>

fun tagOf_second :: "jsx_name \<Rightarrow> string option" where
  "tagOf_second (JSXIdentifier n) = Some (toLowerCase n)"
| "tagOf_second (JSXMemberExpression obj prop) =
     (if prop \<noteq> [] then Some (toLowerCase prop) else None)"
| "tagOf_second (JSXNamespacedName ns n) = None"

definition forEach_step_second :: "jsx_attribute \<Rightarrow> hints \<Rightarrow> hints" where
  "forEach_step_second attr h =
     (case attr of
        JSXSpreadAttribute e \<Rightarrow> h
      | JSXAttribute n v \<Rightarrow>
          (let nm = attr_name_name attr;
               val = value_value attr;
               h1 = (if nm = Some ''aria-label'' \<and> truthy val then h\<lparr>aria := val\<rparr> else h);
               h2 = (if nm = Some ''placeholder'' \<and> truthy val then h1\<lparr>placeholder := val\<rparr>
                     else h1);
               h3 = (if nm = Some ''alt'' \<and> truthy val then h2\<lparr>alt := val\<rparr> else h2)
           in if nm = Some ''title'' \<and> truthy val then h3\<lparr>title := val\<rparr> else h3))"

definition nameSource_second :: "string option \<Rightarrow> jsx_attribute list \<Rightarrow> jsx_child list \<Rightarrow> string" where
  "nameSource_second tag attrs chs =
     (let h = fold forEach_step_second attrs
                \<lparr>aria = Nullish, placeholder = Nullish, alt = Nullish, title = Nullish\<rparr> in
      toString (js_or (Str (childText chs)) (js_or (aria h) (js_or (placeholder h)
        (js_or (alt h) (js_or (title h) (js_or (tag_value tag) (Str []))))))))"

fun classify_second :: "string \<Rightarrow> jsx_element \<Rightarrow> suggestion list \<Rightarrow> suggestion list" where
  "classify_second file (JSXElement nameNode attrs chs loc) suggestions =
     (let tag = tagOf_second nameNode in
        if \<not> isInteractive tag attrs then suggestions
        else if hasDataCy attrs then suggestions
        else let ns = nameSource_second tag attrs chs in
          suggestions @
            [\<lparr>file_of = file, line_of = loc, tag_name = tag_or_el tag, text_hint = ns,
              dataCy = generateTag (tag_info (tag_or_el tag) ns (length suggestions))\<rparr>])"

fun visitJSXElement_second :: "string \<Rightarrow> jsx_element \<Rightarrow> suggestion list \<Rightarrow> suggestion list"
and traverse_expression_second :: "string \<Rightarrow> expression \<Rightarrow> suggestion list \<Rightarrow> suggestion list"
and traverse_attribute_second :: "string \<Rightarrow> jsx_attribute \<Rightarrow> suggestion list \<Rightarrow> suggestion list"
and traverse_child_second :: "string \<Rightarrow> jsx_child \<Rightarrow> suggestion list \<Rightarrow> suggestion list"
where
  "visitJSXElement_second file (JSXElement nameNode attrs chs loc) suggestions =
     fold (traverse_child_second file) chs
       (fold (traverse_attribute_second file) attrs
         (classify_second file (JSXElement nameNode attrs chs loc) suggestions))"
| "traverse_expression_second file (OtherExpression es) suggestions =
     fold (visitJSXElement_second file) es suggestions"
| "traverse_expression_second file (StringLiteral s) suggestions = suggestions"
| "traverse_expression_second file (NumericLiteral n) suggestions = suggestions"
| "traverse_expression_second file (BooleanLiteral b) suggestions = suggestions"
| "traverse_attribute_second file (JSXAttribute n (JSXExpressionContainerValue e)) suggestions =
     traverse_expression_second file e suggestions"
| "traverse_attribute_second file (JSXAttribute n (JSXElementValue el)) suggestions =
     visitJSXElement_second file el suggestions"
| "traverse_attribute_second file (JSXAttribute n NoValue) suggestions = suggestions"
| "traverse_attribute_second file (JSXAttribute n (StringLiteralValue s)) suggestions =
     suggestions"
| "traverse_attribute_second file (JSXSpreadAttribute e) suggestions =
     traverse_expression_second file e suggestions"
| "traverse_child_second file (JSXText v) suggestions = suggestions"
| "traverse_child_second file (JSXExpressionContainer e) suggestions =
     traverse_expression_second file e suggestions"
| "traverse_child_second file (JSXChildElement el) suggestions =
     visitJSXElement_second file el suggestions"
| "traverse_child_second file (JSXFragment es) suggestions =
     fold (visitJSXElement_second file) es suggestions"
| "traverse_child_second file (JSXSpreadChild e) suggestions =
     traverse_expression_second file e suggestions"

definition extractSuggestionsFromAST_second ::
  "jsx_element list \<Rightarrow> string \<Rightarrow> string \<Rightarrow> suggestion list" where
  "extractSuggestionsFromAST_second ast code file = fold (visitJSXElement_second file) ast []"

section \<open>Notions used to state the properties\<close>

text \<open>
  The path the body of \<open>visitJSXElement\<close> takes on an element: it returns at the
  component check, at the \<open>isInteractive\<close> check, at the \<open>data-cy\<close> check, or pushes a
  suggestion. An element is flagged as interactive when it gets past the second check.
\<close>

datatype outcome = ComponentSkipped | NotInteractive | AlreadyMarked | Suggested

fun outcome_of :: "jsx_element \<Rightarrow> outcome" where
  "outcome_of (JSXElement nameNode attrs chs loc) =
     (if isComponent nameNode then ComponentSkipped
      else if \<not> isInteractive (tagOf nameNode) attrs then NotInteractive
      else if hasDataCy attrs then AlreadyMarked
      else Suggested)"

definition flagged_interactive :: "jsx_element \<Rightarrow> bool" where
  "flagged_interactive e = (outcome_of e = AlreadyMarked \<or> outcome_of e = Suggested)"

text \<open>The record pushed for an element when \<open>suggestions.length\<close> is \<open>n\<close>.\<close>

fun suggestion_for :: "string \<Rightarrow> jsx_element \<Rightarrow> nat \<Rightarrow> suggestion" where
  "suggestion_for file (JSXElement nameNode attrs chs loc) n =
     \<lparr>file_of = file, line_of = loc_line loc, tag_name = tag_or_el (tagOf nameNode),
      text_hint = nameSource (tagOf nameNode) attrs chs,
      dataCy = generateTag (tag_info (tag_or_el (tagOf nameNode))
                 (nameSource (tagOf nameNode) attrs chs) n)\<rparr>"



text \<open>The JSX elements of a tree in pre-order: the order in which the visitor meets them.\<close>

fun elements :: "jsx_element \<Rightarrow> jsx_element list"
and expression_elements :: "expression \<Rightarrow> jsx_element list"
and attribute_elements :: "jsx_attribute \<Rightarrow> jsx_element list"
and child_elements :: "jsx_child \<Rightarrow> jsx_element list"
where
  "elements (JSXElement nameNode attrs chs loc) =
     JSXElement nameNode attrs chs loc
       # concat (map attribute_elements attrs) @ concat (map child_elements chs)"
| "expression_elements (OtherExpression es) = concat (map elements es)"
| "expression_elements (StringLiteral s) = []"
| "expression_elements (NumericLiteral n) = []"
| "expression_elements (BooleanLiteral b) = []"
| "attribute_elements (JSXAttribute n (JSXExpressionContainerValue e)) = expression_elements e"
| "attribute_elements (JSXAttribute n (JSXElementValue el)) = elements el"
| "attribute_elements (JSXAttribute n NoValue) = []"
| "attribute_elements (JSXAttribute n (StringLiteralValue s)) = []"
| "attribute_elements (JSXSpreadAttribute e) = expression_elements e"
| "child_elements (JSXText v) = []"
| "child_elements (JSXExpressionContainer e) = expression_elements e"
| "child_elements (JSXChildElement el) = elements el"
| "child_elements (JSXFragment es) = concat (map elements es)"
| "child_elements (JSXSpreadChild e) = expression_elements e"

definition all_elements :: "jsx_element list \<Rightarrow> jsx_element list" where
  "all_elements ast = concat (map elements ast)"

fun attributes_of :: "jsx_element \<Rightarrow> jsx_attribute list" where
  "attributes_of (JSXElement nameNode attrs chs loc) = attrs"

text \<open>
  The label hint in the words of the specification: the first non-empty string of a
  list of sources. The first source is the literal text of the first text-bearing
  child, trimmed, where a child bears text when it is a JSX text or a string literal
  in braces and that text is not blank. The statically known text of an attribute is
  that of its last occurrence.
\<close>

fun first_nonempty :: "string list \<Rightarrow> string" where
  "first_nonempty [] = []"
| "first_nonempty (s # ss) = (if s \<noteq> [] then s else first_nonempty ss)"

fun child_literal :: "jsx_child \<Rightarrow> string" where
  "child_literal (JSXText v) = v"
| "child_literal (JSXExpressionContainer (StringLiteral s)) = s"
| "child_literal ch = []"

definition text_bearing :: "jsx_child \<Rightarrow> bool" where
  "text_bearing ch = (trim (child_literal ch) \<noteq> [])"

definition claimed_child_text :: "jsx_child list \<Rightarrow> string" where
  "claimed_child_text chs =
     (case find text_bearing chs of None \<Rightarrow> [] | Some ch \<Rightarrow> trim (child_literal ch))"

text \<open>
  A child that is not a string literal in braces, or is one whose text is neither empty
  nor has white space at either end.
\<close>

fun plain_child :: "jsx_child \<Rightarrow> bool" where
  "plain_child (JSXExpressionContainer (StringLiteral s)) = (s \<noteq> [] \<and> trim s = s)"
| "plain_child ch = True"

fun static_text :: "attr_value \<Rightarrow> string" where
  "static_text NoValue = []"
| "static_text (StringLiteralValue s) = s"
| "static_text (JSXExpressionContainerValue (StringLiteral s)) = s"
| "static_text (JSXExpressionContainerValue (NumericLiteral n)) =
     (if n = 0 then [] else String_of_nat (unat n))"
| "static_text (JSXExpressionContainerValue (BooleanLiteral b)) = (if b then ''true'' else [])"
| "static_text (JSXExpressionContainerValue (OtherExpression es)) = []"
| "static_text (JSXElementValue el) = []"

fun attr_text :: "string \<Rightarrow> jsx_attribute list \<Rightarrow> string" where
  "attr_text name [] = []"
| "attr_text name (JSXAttribute (AttrIdentifier n) v # attrs) =
     (if list_ex (\<lambda>a. attr_name_name a = Some name) attrs then attr_text name attrs
      else if n = name then static_text v else [])"
| "attr_text name (a # attrs) = attr_text name attrs"

definition tag_text :: "jsx_name \<Rightarrow> string" where
  "tag_text nameNode = (case tagOf nameNode of None \<Rightarrow> [] | Some t \<Rightarrow> t)"

definition label_sources :: "string \<Rightarrow> jsx_name \<Rightarrow> jsx_attribute list \<Rightarrow> string list" where
  "label_sources child_text nameNode attrs =
     [child_text, attr_text ''aria-label'' attrs, attr_text ''placeholder'' attrs,
      attr_text ''alt'' attrs, attr_text ''title'' attrs, tag_text nameNode, []]"

definition claimed_hint :: "jsx_name \<Rightarrow> jsx_attribute list \<Rightarrow> jsx_child list \<Rightarrow> string" where
  "claimed_hint nameNode attrs chs =
     first_nonempty (label_sources (claimed_child_text chs) nameNode attrs)"

text \<open>
  The text token in the words of the specification: the first line, split on
  whitespace into words, at most five of them, joined with single spaces.
\<close>

fun split_when :: "(char \<Rightarrow> bool) \<Rightarrow> string \<Rightarrow> string list" where
  "split_when p [] = [[]]"
| "split_when p (c # cs) =
     (if p c then [] # split_when p cs
      else (case split_when p cs of
              [] \<Rightarrow> [[c]]
            | w # ws \<Rightarrow> (c # w) # ws))"

definition claimed_text_token :: "string \<Rightarrow> string" where
  "claimed_text_token t =
     join '' '' (take 5 (filter (\<lambda>w. w \<noteq> []) (split_when is_space (first_line t))))"

text \<open>
  What makes a string a slug: every character is in \<open>[a-z0-9]\<close> or is a hyphen, and no
  two hyphens stand side by side.
\<close>

definition slug_char :: "char \<Rightarrow> bool" where
  "slug_char c = (lower_alnum c \<or> c = CHR ''-'')"

fun no_double_hyphen :: "string \<Rightarrow> bool" where
  "no_double_hyphen (a # b # cs) =
     (\<not> (a = CHR ''-'' \<and> b = CHR ''-'') \<and> no_double_hyphen (b # cs))"
| "no_double_hyphen cs = True"

text \<open>
  Every suggestion of a list carries the slug made from its own tag and hint with its
  position in the list as the ordinal.
\<close>

definition ordinals_ok :: "suggestion list \<Rightarrow> bool" where
  "ordinals_ok s = (\<forall>i<length s.
     dataCy (s ! i) = generateTag (tag_info (tag_name (s ! i)) (text_hint (s ! i)) i))"


section \<open>Properties of strings and of the name generator\<close>

lemma lower_alnum_toLowerCase_char: "lower_alnum c \<Longrightarrow> toLowerCase_char c = c"
  by (auto simp: lower_alnum_def toLowerCase_char_def Let_def)

lemma toLowerCase_lower_alnum: "list_all lower_alnum s \<Longrightarrow> toLowerCase s = s"
  by (induction s) (simp_all add: toLowerCase_def lower_alnum_toLowerCase_char)

lemma toLowerCase_append: "toLowerCase (xs @ ys) = toLowerCase xs @ toLowerCase ys"
  by (simp add: toLowerCase_def)

lemma hyphen_not_alnum: "\<not> lower_alnum (CHR ''-'')"
  by (simp add: lower_alnum_def)

lemma toLowerCase_hyphen: "toLowerCase_char (CHR ''-'') = CHR ''-''"
  by (simp add: toLowerCase_char_def)

lemma replace_runs_ok_prefix:
  "list_all ok xs \<Longrightarrow> replace_runs ok (xs @ ys) = xs @ replace_runs ok ys"
  by (induction xs) simp_all

lemma replace_runs_ok: "list_all ok xs \<Longrightarrow> replace_runs ok xs = xs"
  using replace_runs_ok_prefix [of ok xs "[]"] by simp

lemma digit_char_alnum: "d < 10 \<Longrightarrow> lower_alnum (digit_char d)"
  by (simp add: lower_alnum_def digit_char_def Let_def)

lemma String_of_nat_alnum: "list_all lower_alnum (String_of_nat n)"
proof (induction n rule: String_of_nat.induct)
  case (1 n)
  show ?case
  proof (cases "n < 10")
    case True
    then show ?thesis by (simp add: String_of_nat.simps [of n] digit_char_alnum)
  next
    case False
    with 1 show ?thesis
      by (simp add: String_of_nat.simps [of n] digit_char_alnum)
  qed
qed

lemma String_of_nat_nonempty: "String_of_nat n \<noteq> []"
  by (subst String_of_nat.simps) simp


lemma role_of_tag_alnum:
  "t \<noteq> [] \<Longrightarrow> list_all lower_alnum t \<Longrightarrow>
     role_of_tag t \<noteq> [] \<and> list_all lower_alnum (role_of_tag t)"
  by (simp add: role_of_tag_def lower_alnum_def)

lemma strip_trailing_nonempty: "2 \<le> length s \<Longrightarrow> strip_trailing s \<noteq> []"
  by (cases s rule: rev_cases) (auto simp: strip_trailing_def)

lemma slugify_nonempty:
  assumes "r \<noteq> []" and "list_all lower_alnum r"
  shows "slugify (r @ CHR ''-'' # rest) \<noteq> []"
proof -
  obtain c cs where r: "r = c # cs" using assms(1) by (cases r) auto
  have c: "c \<noteq> CHR ''-''" using assms(2) r hyphen_not_alnum by auto
  have low: "toLowerCase (r @ CHR ''-'' # rest) = r @ CHR ''-'' # toLowerCase rest"
    using assms(2) by (simp add: toLowerCase_append toLowerCase_lower_alnum)
       (simp add: toLowerCase_def toLowerCase_hyphen)
  obtain z where z: "replace_runs lower_alnum (r @ CHR ''-'' # toLowerCase rest) = r @ CHR ''-'' # z"
    using assms(2) by (simp add: replace_runs_ok_prefix hyphen_not_alnum)
  have "strip_edges (r @ CHR ''-'' # z) = strip_trailing (r @ CHR ''-'' # z)"
    using r c by (simp add: strip_edges_def)
  moreover have "strip_trailing (r @ CHR ''-'' # z) \<noteq> []"
    using r by (intro strip_trailing_nonempty) simp
  ultimately show ?thesis
    by (simp add: slugify_def low z)
qed

lemma slugify_role_digits:
  assumes "r \<noteq> []" and "list_all lower_alnum r"
  shows "slugify (r @ ''-'' @ String_of_nat n) = take 60 (r @ ''-'' @ String_of_nat n)"
proof -
  let ?d = "String_of_nat n"
  obtain c cs where r: "r = c # cs" using assms(1) by (cases r) auto
  have c: "c \<noteq> CHR ''-''" using assms(2) r hyphen_not_alnum by auto
  obtain e es where d: "?d = e # es" using String_of_nat_nonempty [of n] by (cases ?d) auto
  have dal: "list_all lower_alnum ?d" by (rule String_of_nat_alnum)
  have "toLowerCase ''-'' = ''-''"
    by (simp add: toLowerCase_def toLowerCase_hyphen)
  then have low: "toLowerCase (r @ ''-'' @ ?d) = r @ ''-'' @ ?d"
    using assms(2) dal
    by (simp only: toLowerCase_append toLowerCase_lower_alnum)
  have "dropWhile (\<lambda>x. \<not> lower_alnum x) ?d = ?d"
    using dal d by simp
  then have rr: "replace_runs lower_alnum (r @ ''-'' @ ?d) = r @ ''-'' @ ?d"
    using assms(2) dal by (simp add: replace_runs_ok_prefix hyphen_not_alnum replace_runs_ok)
  have "last (r @ ''-'' @ ?d) = last ?d" using d by simp
  moreover have "last ?d \<noteq> CHR ''-''"
    using dal hyphen_not_alnum d by (metis last_in_set list.distinct(1) list_all_iff)
  ultimately have se: "strip_edges (r @ ''-'' @ ?d) = r @ ''-'' @ ?d"
    using r c by (simp add: strip_edges_def strip_trailing_def)
  show ?thesis unfolding slugify_def low rr se by (rule refl)
qed

lemma trim_Nil: "trim [] = []"
  by (simp add: trim_def)

lemma generateTag_parts_tag_info:
  "generateTag_parts (tag_info t x n) =
     role_of_tag t # (if trim x \<noteq> [] then [text_token (trim x)] else []) @ [String_of_nat n]"
  by (simp add: generateTag_parts_def tag_info_def info_text_def str_or_def trim_Nil)


lemma split_no_sep: "sep \<notin> set w \<Longrightarrow> split sep w = [w]"
  by (induction w) auto

lemma split_append_sep:
  "sep \<notin> set w \<Longrightarrow> split sep (w @ sep # rest) = w # split sep rest"
  by (induction w) auto

lemma split_join:
  "ws \<noteq> [] \<Longrightarrow> list_all (\<lambda>w. sep \<notin> set w) ws \<Longrightarrow> split sep (join [sep] ws) = ws"
proof (induction "[sep]" ws rule: join.induct)
  case 1
  then show ?case by simp
next
  case (2 w)
  then show ?case by (simp add: split_no_sep)
next
  case (3 w v vs)
  then show ?case by (simp add: split_append_sep)
qed

lemma first_line_no_newline: "CHR 0x0A \<notin> set s \<Longrightarrow> first_line s = s"
  by (simp add: first_line_def split_no_sep)

lemma trim_id: "s \<noteq> [] \<Longrightarrow> \<not> is_space (hd s) \<Longrightarrow> \<not> is_space (last s) \<Longrightarrow> trim s = s"
proof -
  assume a: "s \<noteq> []" "\<not> is_space (hd s)" "\<not> is_space (last s)"
  then have "dropWhile is_space s = s" by (cases s) auto
  moreover have "dropWhile is_space (rev s) = rev s"
    using a by (cases s rule: rev_cases) auto
  ultimately show ?thesis by (simp add: trim_def)
qed

lemma join_words:
  assumes "ws \<noteq> []" and "list_all (\<lambda>w. w \<noteq> [] \<and> list_all (\<lambda>c. \<not> is_space c) w) ws"
  shows "join '' '' ws \<noteq> [] \<and> hd (join '' '' ws) = hd (hd ws)
     \<and> last (join '' '' ws) = last (last ws)
     \<and> set (join '' '' ws) \<subseteq> insert (CHR '' '') (\<Union> (set ` set ws))"
  using assms
proof (induction "'' ''" ws rule: join.induct)
  case 1
  then show ?case by simp
next
  case (2 w)
  then show ?case by auto
next
  case (3 w v vs)
  then show ?case by auto
qed

lemma space_is_space: "is_space (CHR '' '')"
  by (simp add: is_space_def)

lemma newline_is_space: "is_space (CHR 0x0A)"
  by (simp add: is_space_def)

lemma digit_char_inj: "a < 10 \<Longrightarrow> b < 10 \<Longrightarrow> digit_char a = digit_char b \<Longrightarrow> a = b"
proof -
  assume a: "a < 10" "b < 10" "digit_char a = digit_char b"
  then have "(of_char (digit_char a) :: nat) = of_char (digit_char b)" by simp
  then show ?thesis using a(1,2) by (simp add: digit_char_def)
qed

lemma String_of_nat_inj: "String_of_nat m = String_of_nat n \<Longrightarrow> m = n"
proof (induction m arbitrary: n rule: String_of_nat.induct)
  case (1 m)
  show ?case
  proof (cases "m < 10")
    case True
    show ?thesis
    proof (cases "n < 10")
      case True
      with \<open>m < 10\<close> 1(2) show ?thesis
        by (simp add: String_of_nat.simps [of m] String_of_nat.simps [of n] digit_char_inj)
    next
      case False
      with \<open>m < 10\<close> 1(2) show ?thesis
        using String_of_nat_nonempty [of "n div 10"]
        by (simp add: String_of_nat.simps [of m] String_of_nat.simps [of n])
    qed
  next
    case False
    show ?thesis
    proof (cases "n < 10")
      case True
      with \<open>\<not> m < 10\<close> 1(2) show ?thesis
        using String_of_nat_nonempty [of "m div 10"]
        by (simp add: String_of_nat.simps [of m] String_of_nat.simps [of n])
    next
      case nbig: False
      from False nbig 1(2)
      have e: "String_of_nat (m div 10) = String_of_nat (n div 10)"
        and d: "digit_char (m mod 10) = digit_char (n mod 10)"
        by (simp_all add: String_of_nat.simps [of m] String_of_nat.simps [of n])
      from 1(1) [OF False e] have "m div 10 = n div 10" .
      moreover have "m mod 10 = n mod 10"
        using d by (intro digit_char_inj) simp_all
      ultimately show ?thesis by (metis div_mult_mod_eq)
    qed
  qed
qed

lemma dropWhile_append_ok:
  "list_all ok d \<Longrightarrow> dropWhile (\<lambda>x. \<not> ok x) (cs @ d) = dropWhile (\<lambda>x. \<not> ok x) cs @ d"
  by (induction cs) (auto, cases d, auto)

lemma replace_runs_ok_suffix:
  "list_all ok d \<Longrightarrow> replace_runs ok (xs @ d) = replace_runs ok xs @ d"
proof (induction ok xs rule: replace_runs.induct)
  case (1 ok)
  then show ?case by (simp add: replace_runs_ok)
next
  case (2 ok c cs)
  then show ?case by (simp add: dropWhile_append_ok)
qed

lemma replace_runs_snoc_hyphen:
  "\<not> ok c \<Longrightarrow> replace_runs ok (xs @ [c]) \<noteq> [] \<and> last (replace_runs ok (xs @ [c])) = CHR ''-''"
proof (induction ok xs rule: replace_runs.induct)
  case (1 ok)
  then show ?case by simp
next
  case (2 ok x cs)
  show ?case
  proof (cases "ok x")
    case True
    with 2 show ?thesis by simp
  next
    case False
    show ?thesis
    proof (cases "\<forall>y\<in>set cs. \<not> ok y")
      case True
      then have "dropWhile (\<lambda>x. \<not> ok x) (cs @ [c]) = []"
        using 2(3) by simp
      with False show ?thesis by simp
    next
      case some: False
      then have "dropWhile (\<lambda>x. \<not> ok x) (cs @ [c]) = dropWhile (\<lambda>x. \<not> ok x) cs @ [c]"
        by (simp add: dropWhile_append)
      with False 2(2) [OF False 2(3)] show ?thesis by simp
    qed
  qed
qed

lemma slug_shape:
  "\<exists>w. strip_edges (replace_runs lower_alnum (toLowerCase (p @ ''-'' @ String_of_nat n)))
         = w @ String_of_nat n \<and> (w = [] \<or> last w = CHR ''-'')"
proof -
  let ?d = "String_of_nat n"
  have dal: "list_all lower_alnum ?d" by (rule String_of_nat_alnum)
  have dne: "?d \<noteq> []" by (rule String_of_nat_nonempty)
  have "toLowerCase ''-'' = ''-''"
    by (simp add: toLowerCase_def toLowerCase_hyphen)
  then have low: "toLowerCase (p @ ''-'' @ ?d) = (toLowerCase p @ ''-'') @ ?d"
    using dal by (simp only: toLowerCase_append toLowerCase_lower_alnum append_assoc)
  define z where "z = replace_runs lower_alnum (toLowerCase p @ ''-'')"
  have z: "z \<noteq> []" "last z = CHR ''-''"
    using replace_runs_snoc_hyphen [of lower_alnum "CHR ''-''" "toLowerCase p"] hyphen_not_alnum
    by (simp_all add: z_def)
  have rr: "replace_runs lower_alnum ((toLowerCase p @ ''-'') @ ?d) = z @ ?d"
    unfolding z_def by (rule replace_runs_ok_suffix [OF dal])
  have lastd: "last ?d \<noteq> CHR ''-''"
    using dal hyphen_not_alnum dne by (metis last_in_set list_all_iff)
  obtain c z' where zc: "z = c # z'" using z(1) by (cases z) auto
  have st: "strip_trailing (z' @ ?d) = z' @ ?d" "strip_trailing (z @ ?d) = z @ ?d"
    using dne lastd by (simp_all add: strip_trailing_def)
  show ?thesis
  proof (cases "c = CHR ''-''")
    case True
    then have "strip_edges (z @ ?d) = z' @ ?d"
      using st(1) by (simp add: strip_edges_def zc)
    moreover have "z' = [] \<or> last z' = CHR ''-''"
      using z(2) zc by (cases z') auto
    ultimately show ?thesis unfolding low rr by blast
  next
    case False
    then have "strip_edges (z @ ?d) = z @ ?d"
      using st(2) zc by (simp add: strip_edges_def)
    then show ?thesis unfolding low rr using z(2) by blast
  qed
qed

lemma suffix_after_hyphen:
  assumes "w @ d = w' @ d'" and "w = [] \<or> last w = CHR ''-''" and "w' = [] \<or> last w' = CHR ''-''"
    and "CHR ''-'' \<notin> set d" and "CHR ''-'' \<notin> set d'"
  shows "d = d'"
proof -
  have t: "\<And>v e. v = [] \<or> last v = CHR ''-'' \<Longrightarrow> CHR ''-'' \<notin> set e \<Longrightarrow>
      takeWhile (\<lambda>c. c \<noteq> CHR ''-'') (rev (v @ e)) = rev e"
  proof -
    fix v e :: string
    assume a: "v = [] \<or> last v = CHR ''-''" "CHR ''-'' \<notin> set e"
    then have e: "takeWhile (\<lambda>c. c \<noteq> CHR ''-'') (rev e) = rev e"
      by auto
    show "takeWhile (\<lambda>c. c \<noteq> CHR ''-'') (rev (v @ e)) = rev e"
    proof (cases v rule: rev_cases)
      case Nil
      then show ?thesis using e by simp
    next
      case (snoc ys y)
      with a(1) have "y = CHR ''-''" by simp
      with snoc a(2) show ?thesis by (simp add: takeWhile_append)
    qed
  qed
  have "rev d = takeWhile (\<lambda>c. c \<noteq> CHR ''-'') (rev (w @ d))"
    using t [OF assms(2,4)] by simp
  also have "\<dots> = rev d'"
    using t [OF assms(3,5)] assms(1) by simp
  finally show ?thesis by simp
qed

lemma generateTag_shape:
  "\<exists>w. strip_edges (replace_runs lower_alnum (toLowerCase (join ''-'' (generateTag_parts (tag_info t x n)))))
         = w @ String_of_nat n \<and> (w = [] \<or> last w = CHR ''-'')"
proof (cases "trim x \<noteq> []")
  case True
  then have "join ''-'' (generateTag_parts (tag_info t x n))
      = (role_of_tag t @ ''-'' @ text_token (trim x)) @ ''-'' @ String_of_nat n"
    by (simp add: generateTag_parts_tag_info)
  then show ?thesis using slug_shape by presburger
next
  case False
  then have "join ''-'' (generateTag_parts (tag_info t x n))
      = role_of_tag t @ ''-'' @ String_of_nat n"
    by (simp add: generateTag_parts_tag_info)
  then show ?thesis using slug_shape by presburger
qed

lemma generateTag_inj_ordinal:
  assumes "generateTag (tag_info t x m) = generateTag (tag_info t' x' n)"
    and "length (generateTag (tag_info t x m)) < 60"
  shows "m = n"
proof -
  let ?f = "\<lambda>t x n. strip_edges (replace_runs lower_alnum (toLowerCase (join ''-'' (generateTag_parts (tag_info t x n)))))"
  have cut: "\<And>s::string. length (take 60 s) < 60 \<Longrightarrow> take 60 s = s" by simp
  have g: "\<And>t x n. generateTag (tag_info t x n) = take 60 (?f t x n)"
    by (simp add: generateTag_def slugify_def)
  have a: "take 60 (?f t x m) = ?f t x m" using assms(2) cut g by metis
  have b: "take 60 (?f t' x' n) = ?f t' x' n" using assms cut g by metis
  have eq: "?f t x m = ?f t' x' n" using assms(1) a b g by metis
  obtain w where w: "?f t x m = w @ String_of_nat m" "w = [] \<or> last w = CHR ''-''"
    using generateTag_shape by blast
  obtain w' where w': "?f t' x' n = w' @ String_of_nat n" "w' = [] \<or> last w' = CHR ''-''"
    using generateTag_shape by blast
  have nh: "\<And>k. CHR ''-'' \<notin> set (String_of_nat k)"
    using String_of_nat_alnum hyphen_not_alnum by (metis list_all_iff)
  have "String_of_nat m = String_of_nat n"
    using suffix_after_hyphen [OF _ w(2) w'(2) nh nh] eq w(1) w'(1) by simp
  then show ?thesis by (rule String_of_nat_inj)
qed

text \<open>
  Claim C3. The namer turns the role \<open>a\<close> into the token \<open>link\<close> and leaves every other
  role as it is; the role token is the first part of the slug; and the two examples of
  the specification give \<open>button-submit-form-0\<close> and \<open>link-learn-more-2\<close>.
\<close>

theorem namer_role_mapping:
  "role_of_tag ''a'' = ''link''
   \<and> (t \<noteq> ''a'' \<longrightarrow> role_of_tag t = t)
   \<and> hd (generateTag_parts (tag_info t x n)) = role_of_tag t
   \<and> generateTag (tag_info ''button'' ''Submit Form'' 0) = ''button-submit-form-0''
   \<and> generateTag (tag_info ''a'' ''Learn More'' 2) = ''link-learn-more-2''"
proof -
  have "generateTag (tag_info ''button'' ''Submit Form'' 0) = ''button-submit-form-0''"
    by code_simp
  moreover have "generateTag (tag_info ''a'' ''Learn More'' 2) = ''link-learn-more-2''"
    by code_simp
  ultimately show ?thesis
    by (simp add: role_of_tag_def generateTag_parts_tag_info)
qed

theorem namer_role_mapping_witness:
  "role_of_tag ''button'' = ''button''
   \<and> hd (generateTag_parts (tag_info ''button'' ''Submit Form'' 0)) = ''button''"
  using namer_role_mapping [of "''button''" "''Submit Form''" 0] by simp


text \<open>
  Claim C6, as the code has it. The text token is the trimmed first line of the trimmed
  hint, split at every single space character, cut to five pieces and joined with
  single spaces. So a hint made of words separated by exactly one space each (no other
  whitespace in it) contributes exactly its first five words.
\<close>

theorem namer_text_token:
  assumes "ws \<noteq> []" and "list_all (\<lambda>w. w \<noteq> [] \<and> list_all (\<lambda>c. \<not> is_space c) w) ws"
  shows "text_token (join '' '' ws) = join '' '' (take 5 ws)
     \<and> generateTag_parts (tag_info t (join '' '' ws) n) =
         [role_of_tag t, join '' '' (take 5 ws), String_of_nat n]
     \<and> (trim x \<noteq> [] \<longrightarrow> generateTag_parts (tag_info t x n) =
         [role_of_tag t,
          join '' '' (take 5 (split (CHR '' '') (trim (first_line (trim x))))),
          String_of_nat n])"
proof -
  let ?s = "join '' '' ws"
  have each: "\<And>w c. w \<in> set ws \<Longrightarrow> c \<in> set w \<Longrightarrow> \<not> is_space c" and ne: "\<And>w. w \<in> set ws \<Longrightarrow> w \<noteq> []"
    using assms(2) by (auto simp: list_all_iff)
  have j: "?s \<noteq> []" "hd ?s = hd (hd ws)" "last ?s = last (last ws)"
    "set ?s \<subseteq> insert (CHR '' '') (\<Union> (set ` set ws))"
    using join_words [OF assms] by simp_all
  have nonl: "CHR 0x0A \<notin> set ?s"
    using j(4) each newline_is_space by auto
  have "hd ws \<in> set ws" "last ws \<in> set ws" using assms(1) by simp_all
  then have "\<not> is_space (hd ?s)" "\<not> is_space (last ?s)"
    using j(2,3) each ne by (metis hd_in_set, metis last_in_set)
  then have tr: "trim ?s = ?s" using j(1) by (simp add: trim_id)
  have "list_all (\<lambda>w. CHR '' '' \<notin> set w) ws"
    using each space_is_space by (auto simp: list_all_iff)
  then have sp: "split (CHR '' '') ?s = ws"
    using split_join [OF assms(1), of "CHR '' ''"] by simp
  have tok: "text_token ?s = join '' '' (take 5 ws)"
    by (simp add: text_token_def first_line_no_newline [OF nonl] tr sp)
  have gen: "trim x \<noteq> [] \<longrightarrow> generateTag_parts (tag_info t x n) =
      [role_of_tag t,
       join '' '' (take 5 (split (CHR '' '') (trim (first_line (trim x))))),
       String_of_nat n]"
    by (simp add: generateTag_parts_tag_info text_token_def)
  have "generateTag_parts (tag_info t ?s n) = [role_of_tag t, join '' '' (take 5 ws), String_of_nat n]"
    using tok j(1) by (simp add: generateTag_parts_tag_info tr)
  with tok gen show ?thesis by blast
qed

theorem namer_text_token_witness:
  "text_token ''Save changes to your profile now'' = ''Save changes to your profile''
   \<and> generateTag_parts (tag_info ''button'' ''Save changes to your profile now'' 0) =
       [''button'', ''Save changes to your profile'', ''0'']
   \<and> generateTag_parts (tag_info ''button'' ''Save  changes to your profile now'' 0) =
       [''button'', ''Save  changes to your'', ''0'']"
proof -
  let ?ws = "[''Save'', ''changes'', ''to'', ''your'', ''profile'', ''now'']"
  let ?x = "''Save  changes to your profile now''"
  have h1: "?ws \<noteq> []" by simp
  have h2: "list_all (\<lambda>w. w \<noteq> [] \<and> list_all (\<lambda>c. \<not> is_space c) w) ?ws"
    by (simp add: is_space_def)
  have h3: "trim ?x \<noteq> []" by code_simp
  have r: "role_of_tag ''button'' = ''button''" by (simp add: role_of_tag_def)
  have d: "String_of_nat 0 = ''0''" by code_simp
  have p: "join '' '' (take 5 (split (CHR '' '') (trim (first_line (trim ?x)))))
      = ''Save  changes to your''"
    by code_simp
  show ?thesis
    using namer_text_token [OF h1 h2, of "''button''" 0 ?x] h3
    unfolding p r d by simp
qed

text \<open>
  Claim C6 as stated fails: the split is at single spaces and not at whitespace, so two
  spaces in a row give an empty piece that counts as one of the five. Here the fifth
  word, \<open>profile\<close>, does not reach the slug.
\<close>

theorem namer_whitespace_split_counterexample:
  "text_token ''Save  changes to your profile now'' = ''Save  changes to your''
   \<and> claimed_text_token ''Save  changes to your profile now'' = ''Save changes to your profile''
   \<and> text_token ''Save  changes to your profile now''
       \<noteq> claimed_text_token ''Save  changes to your profile now''
   \<and> generateTag (tag_info ''button'' ''Save  changes to your profile now'' 0)
       = ''button-save-changes-to-your-0''"
  by code_simp

lemma lower_alnum_slug_char: "list_all lower_alnum s \<Longrightarrow> list_all slug_char s"
  by (simp add: list_all_iff slug_char_def)

lemma replace_runs_slug_chars: "list_all slug_char (replace_runs lower_alnum s)"
  by (induction lower_alnum s rule: replace_runs.induct) (simp_all add: slug_char_def)

lemma strip_edges_subset: "set (strip_edges s) \<subseteq> set s"
proof -
  have t: "\<And>r. set (strip_trailing r) \<subseteq> set r"
    by (auto simp: strip_trailing_def dest: in_set_butlastD)
  show ?thesis
  proof (cases s)
    case Nil
    then show ?thesis by (simp add: strip_edges_def)
  next
    case (Cons c cs)
    then show ?thesis
      using t [of cs] t [of "c # cs"] by (auto simp: strip_edges_def)
  qed
qed

lemma slugify_slug_chars: "list_all slug_char (slugify s)"
proof -
  have "set (slugify s) \<subseteq> set (replace_runs lower_alnum (toLowerCase s))"
    using strip_edges_subset set_take_subset unfolding slugify_def by fast
  then show ?thesis
    using replace_runs_slug_chars [of "toLowerCase s"] by (auto simp: list_all_iff)
qed

lemma no_double_hyphen_Cons:
  "no_double_hyphen (c # s) = (no_double_hyphen s \<and> \<not> (c = CHR ''-'' \<and> s \<noteq> [] \<and> hd s = CHR ''-''))"
  by (cases s) auto

lemma no_double_hyphen_prefix: "no_double_hyphen (xs @ ys) \<Longrightarrow> no_double_hyphen xs"
proof (induction xs)
  case Nil
  then show ?case by simp
next
  case (Cons a xs)
  then show ?case by (cases xs) (auto simp: no_double_hyphen_Cons)
qed

lemma no_double_hyphen_suffix: "no_double_hyphen (xs @ ys) \<Longrightarrow> no_double_hyphen ys"
  by (induction xs) (simp_all add: no_double_hyphen_Cons)

lemma replace_runs_head:
  "replace_runs lower_alnum s = [] \<or> hd (replace_runs lower_alnum s) = CHR ''-'' \<longleftrightarrow>
     s = [] \<or> \<not> lower_alnum (hd s)"
  using hyphen_not_alnum by (cases s) auto

lemma replace_runs_no_double_hyphen: "no_double_hyphen (replace_runs lower_alnum s)"
proof (induction lower_alnum s rule: replace_runs.induct)
  case 1
  then show ?case by simp
next
  case (2 c cs)
  show ?case
  proof (cases "lower_alnum c")
    case True
    then have "c \<noteq> CHR ''-''" using hyphen_not_alnum by auto
    with True 2 show ?thesis by (simp add: no_double_hyphen_Cons)
  next
    case False
    define d where "d = dropWhile (\<lambda>x. \<not> lower_alnum x) cs"
    define rr where "rr = replace_runs lower_alnum d"
    have "d = [] \<or> lower_alnum (hd d)"
      using hd_dropWhile [of "\<lambda>x. \<not> lower_alnum x" cs] by (auto simp: d_def)
    then have h: "rr = [] \<or> hd rr \<noteq> CHR ''-''"
      using hyphen_not_alnum by (cases d) (auto simp: rr_def)
    have ih: "no_double_hyphen rr"
      using 2(2) [OF False] by (simp add: rr_def d_def)
    have "replace_runs lower_alnum (c # cs) = CHR ''-'' # rr"
      using False by (simp add: rr_def d_def)
    then show ?thesis
      using h ih by (auto simp: no_double_hyphen_Cons)
  qed
qed

lemma slugify_no_double_hyphen: "no_double_hyphen (slugify s)"
proof -
  let ?r = "replace_runs lower_alnum (toLowerCase s)"
  have r: "no_double_hyphen ?r" by (rule replace_runs_no_double_hyphen)
  have t: "\<And>u. no_double_hyphen u \<Longrightarrow> no_double_hyphen (strip_trailing u)"
  proof -
    fix u :: string
    assume u: "no_double_hyphen u"
    show "no_double_hyphen (strip_trailing u)"
    proof (cases "u \<noteq> [] \<and> last u = CHR ''-''")
      case True
      then have "butlast u @ [last u] = u" by (intro append_butlast_last_id) simp
      then have "no_double_hyphen (butlast u)"
        using u no_double_hyphen_prefix [of "butlast u" "[last u]"] by simp
      with True show ?thesis by (simp add: strip_trailing_def)
    next
      case False
      with u show ?thesis by (auto simp: strip_trailing_def)
    qed
  qed
  have e: "no_double_hyphen (strip_edges ?r)"
  proof (cases ?r)
    case Nil
    then show ?thesis by (simp add: strip_edges_def)
  next
    case (Cons c cs)
    have "no_double_hyphen cs"
      using r Cons no_double_hyphen_suffix [of "[c]" cs] by simp
    then show ?thesis using r t Cons by (simp add: strip_edges_def)
  qed
  have "strip_edges ?r = take 60 (strip_edges ?r) @ drop 60 (strip_edges ?r)" by simp
  then have "no_double_hyphen (take 60 (strip_edges ?r))"
    using e no_double_hyphen_prefix [of "take 60 (strip_edges ?r)" "drop 60 (strip_edges ?r)"]
    by simp
  then show ?thesis by (simp add: slugify_def)
qed

lemma slugify_head:
  assumes "r \<noteq> []" and "list_all lower_alnum r"
  shows "hd (slugify (r @ CHR ''-'' # rest)) = hd r"
proof -
  obtain c cs where r: "r = c # cs" using assms(1) by (cases r) auto
  have c: "c \<noteq> CHR ''-''" using assms(2) r hyphen_not_alnum by auto
  have low: "toLowerCase (r @ CHR ''-'' # rest) = r @ CHR ''-'' # toLowerCase rest"
    using assms(2) by (simp add: toLowerCase_append toLowerCase_lower_alnum)
       (simp add: toLowerCase_def toLowerCase_hyphen)
  obtain z where z: "replace_runs lower_alnum (r @ CHR ''-'' # toLowerCase rest) = r @ CHR ''-'' # z"
    using assms(2) by (simp add: replace_runs_ok_prefix hyphen_not_alnum)
  have se: "strip_edges (r @ CHR ''-'' # z) = strip_trailing (c # cs @ CHR ''-'' # z)"
    using r c by (simp add: strip_edges_def)
  have h: "hd (strip_trailing (c # cs @ CHR ''-'' # z)) = c"
    by (simp add: strip_trailing_def butlast_append)
  have "slugify (r @ CHR ''-'' # rest) = take 60 (strip_trailing (c # cs @ CHR ''-'' # z))"
    by (simp only: slugify_def low z se)
  then show ?thesis
    using h r by (simp add: hd_take)
qed

text \<open>
  Claim C7, as the code has it. For a non-empty role of characters in \<open>[a-z0-9]\<close> and any
  hint and ordinal, the result is a slug: not empty, at most 60 characters long, made
  of \<open>[a-z0-9]\<close> and single hyphens, and beginning with the first character of the role
  token. With an empty hint it is the first 60 characters of the role token, a hyphen
  and the ordinal; so it is role and ordinal only when those fit into 60 characters,
  as in \<open>select-3\<close>.
\<close>

theorem namer_total_nonempty:
  assumes "t \<noteq> []" and "list_all lower_alnum t"
  shows "generateTag (tag_info t x n) \<noteq> []
     \<and> length (generateTag (tag_info t x n)) \<le> 60
     \<and> list_all slug_char (generateTag (tag_info t x n))
     \<and> no_double_hyphen (generateTag (tag_info t x n))
     \<and> hd (generateTag (tag_info t x n)) = hd (role_of_tag t)
     \<and> generateTag (tag_info t [] n) = take 60 (role_of_tag t @ ''-'' @ String_of_nat n)
     \<and> (length (role_of_tag t @ ''-'' @ String_of_nat n) \<le> 60 \<longrightarrow>
          generateTag (tag_info t [] n) = role_of_tag t @ ''-'' @ String_of_nat n)
     \<and> generateTag (tag_info ''select'' [] 3) = ''select-3''"
proof -
  have r: "role_of_tag t \<noteq> []" "list_all lower_alnum (role_of_tag t)"
    using role_of_tag_alnum [OF assms] by simp_all
  have ne: "generateTag (tag_info t x n) \<noteq> []"
    using slugify_nonempty [OF r]
    by (simp add: generateTag_def generateTag_parts_tag_info)
  have len: "length (generateTag (tag_info t x n)) \<le> 60"
    by (simp add: generateTag_def slugify_def)
  have chars: "list_all slug_char (generateTag (tag_info t x n))"
    unfolding generateTag_def by (rule slugify_slug_chars)
  have ndh: "no_double_hyphen (generateTag (tag_info t x n))"
    unfolding generateTag_def by (rule slugify_no_double_hyphen)
  have hd: "hd (generateTag (tag_info t x n)) = hd (role_of_tag t)"
    using slugify_head [OF r]
    by (simp add: generateTag_def generateTag_parts_tag_info)
  have empty: "generateTag (tag_info t [] n) = take 60 (role_of_tag t @ ''-'' @ String_of_nat n)"
    using slugify_role_digits [OF r, of n]
    by (simp add: generateTag_def generateTag_parts_tag_info trim_Nil)
  have fits: "length (role_of_tag t @ ''-'' @ String_of_nat n) \<le> 60 \<longrightarrow>
      generateTag (tag_info t [] n) = role_of_tag t @ ''-'' @ String_of_nat n"
    unfolding empty by simp
  have "generateTag (tag_info ''select'' [] 3) = ''select-3''"
    by code_simp
  with ne len chars ndh hd empty fits show ?thesis by blast
qed

text \<open>
  The select of the specification, with a hint and without: both slugs are well formed,
  and without a hint the slug is \<open>select-3\<close>.
\<close>

theorem namer_total_nonempty_witness:
  "generateTag (tag_info ''select'' ''Choose an option'' 3) \<noteq> []
     \<and> list_all slug_char (generateTag (tag_info ''select'' ''Choose an option'' 3))
     \<and> no_double_hyphen (generateTag (tag_info ''select'' ''Choose an option'' 3))
     \<and> generateTag (tag_info ''select'' [] 3) = ''select-3''"
proof -
  have h1: "''select'' \<noteq> []" by simp
  have h2: "list_all lower_alnum ''select''" by (simp add: lower_alnum_def)
  show ?thesis
    using namer_total_nonempty [OF h1 h2, of "''Choose an option''" 3] by blast
qed

text \<open>
  Claim C7 as stated fails: the cut to 60 characters comes after the ordinal is
  appended. For a role of 59 letters and an empty hint the slug is the role and a
  hyphen, without the ordinal; for a role of 60 letters it is the role alone, the same
  for the ordinals 3 and 4.
\<close>

theorem namer_ordinal_cut_counterexample:
  "replicate 59 (CHR ''a'') \<noteq> [] \<and> list_all lower_alnum (replicate 59 (CHR ''a''))
   \<and> generateTag (tag_info (replicate 59 (CHR ''a'')) [] 3) = replicate 59 (CHR ''a'') @ ''-''
   \<and> generateTag (tag_info (replicate 60 (CHR ''a'')) [] 3) = replicate 60 (CHR ''a'')
   \<and> generateTag (tag_info (replicate 60 (CHR ''a'')) [] 4) = replicate 60 (CHR ''a'')"
  by code_simp

section \<open>Properties of the scanner\<close>

lemma classify_outcome:
  "classify f e s = (if outcome_of e = Suggested then s @ [suggestion_for f e (length s)] else s)"
  by (cases e) (simp add: Let_def)

lemma fold_concat_map: "fold f (concat (map g xs)) s = fold (\<lambda>x. fold f (g x)) xs s"
  by (induction xs arbitrary: s) simp_all

lemma visit_elements:
  "visitJSXElement f e s = fold (classify f) (elements e) s"
  "traverse_expression f x s = fold (classify f) (expression_elements x) s"
  "traverse_attribute f a s = fold (classify f) (attribute_elements a) s"
  "traverse_child f c s = fold (classify f) (child_elements c) s"
proof (induction f e s and f x s and f a s and f c s
    rule: visitJSXElement_traverse_expression_traverse_attribute_traverse_child.induct)
  case (1 f nameNode attrs chs loc suggestions)
  have a: "\<And>t. fold (traverse_attribute f) attrs t
      = fold (\<lambda>x. fold (classify f) (attribute_elements x)) attrs t"
    using 1(1) by (intro fold_cong) auto
  have c: "\<And>t. fold (traverse_child f) chs t
      = fold (\<lambda>x. fold (classify f) (child_elements x)) chs t"
    using 1(2) by (intro fold_cong) auto
  show ?case
    by (simp only: visitJSXElement.simps elements.simps a c fold_concat_map fold_append fold_simps comp_apply)
next
  case (2 f es suggestions)
  have "fold (visitJSXElement f) es suggestions
      = fold (\<lambda>x. fold (classify f) (elements x)) es suggestions"
    using 2 by (intro fold_cong) auto
  then show ?case by (simp add: fold_concat_map)
next
  case (14 f es suggestions)
  have "fold (visitJSXElement f) es suggestions
      = fold (\<lambda>x. fold (classify f) (elements x)) es suggestions"
    using 14 by (intro fold_cong) auto
  then show ?case by (simp add: fold_concat_map)
qed simp_all

lemma extract_elements:
  "extractSuggestionsFromAST ast code f = fold (classify f) (all_elements ast) []"
proof -
  have "fold (visitJSXElement f) ast [] = fold (\<lambda>x. fold (classify f) (elements x)) ast []"
    by (intro fold_cong) (auto simp: visit_elements)
  then show ?thesis
    by (simp add: extractSuggestionsFromAST_def all_elements_def fold_concat_map)
qed

lemma suggestion_for_fields:
  "dataCy (suggestion_for f e n)
     = generateTag (tag_info (tag_name (suggestion_for f e n)) (text_hint (suggestion_for f e n)) n)"
  by (cases e) simp

lemma classify_ordinals: "ordinals_ok s \<Longrightarrow> ordinals_ok (classify f e s)"
  by (auto simp: ordinals_ok_def classify_outcome nth_append less_Suc_eq suggestion_for_fields)

lemma fold_classify_ordinals: "ordinals_ok s \<Longrightarrow> ordinals_ok (fold (classify f) es s)"
  by (induction es arbitrary: s) (simp_all add: classify_ordinals)

lemma extract_ordinals: "ordinals_ok (extractSuggestionsFromAST ast code f)"
proof -
  have "ordinals_ok []" by (simp add: ordinals_ok_def)
  then show ?thesis by (simp only: extract_elements fold_classify_ordinals)
qed


lemma fold_classify_none:
  "list_all (\<lambda>e. outcome_of e \<noteq> Suggested) es \<Longrightarrow> fold (classify f) es s = s"
  by (induction es arbitrary: s) (simp_all add: classify_outcome)

lemma allSuggestions_acc: "allSuggestions fs acc = acc @ allSuggestions fs []"
proof (induction fs arbitrary: acc)
  case Nil
  then show ?case by simp
next
  case (Cons p fs)
  obtain f src where p: "p = (f, src)" by (cases p)
  show ?case
  proof (cases src)
    case Missing
    then show ?thesis using Cons [of acc] by (simp add: p)
  next
    case ParseFailed
    then show ?thesis using Cons [of acc] by (simp add: p)
  next
    case (Parsed ast code)
    have "allSuggestions (p # fs) acc
        = (acc @ extractSuggestionsFromAST ast code f) @ allSuggestions fs []"
      using Cons [of "acc @ extractSuggestionsFromAST ast code f"] by (simp add: p Parsed)
    moreover have "allSuggestions (p # fs) []
        = extractSuggestionsFromAST ast code f @ allSuggestions fs []"
      using Cons [of "extractSuggestionsFromAST ast code f"] by (simp add: p Parsed)
    ultimately show ?thesis by simp
  qed
qed

lemma allSuggestions_append:
  "allSuggestions (fs @ gs) acc = allSuggestions gs (allSuggestions fs acc)"
  by (induction fs acc rule: allSuggestions.induct) simp_all


lemma hasDataCy_iff:
  "hasDataCy attrs = (\<exists>v. JSXAttribute (AttrIdentifier ''data-cy'') v \<in> set attrs)"
proof -
  have "\<And>a. (attr_name_name a = Some ''data-cy'')
      = (\<exists>v. a = JSXAttribute (AttrIdentifier ''data-cy'') v)"
  proof -
    fix a
    show "(attr_name_name a = Some ''data-cy'')
      = (\<exists>v. a = JSXAttribute (AttrIdentifier ''data-cy'') v)"
    proof (cases a)
      case (JSXAttribute n v)
      then show ?thesis by (cases n) auto
    next
      case (JSXSpreadAttribute e)
      then show ?thesis by simp
    qed
  qed
  then show ?thesis by (auto simp: hasDataCy_def list_ex_iff)
qed











text \<open>
  The component check of the first listing: for an element whose name is an identifier
  starting with \<open>A\<close>-\<open>Z\<close>, whatever its attributes, the body of \<open>visitJSXElement\<close> pushes
  nothing; the visit goes on through its attributes and children, so the result is
  that of classifying the elements inside it.
\<close>

lemma component_guard:
  assumes "starts_upper n"
  shows "classify file (JSXElement (JSXIdentifier n) attrs chs loc) s = s
    \<and> visitJSXElement file (JSXElement (JSXIdentifier n) attrs chs loc) s
        = fold (traverse_child file) chs (fold (traverse_attribute file) attrs s)
    \<and> visitJSXElement file (JSXElement (JSXIdentifier n) attrs chs loc) s
        = fold (classify file) (concat (map attribute_elements attrs) @ concat (map child_elements chs)) s"
proof -
  have c: "classify file (JSXElement (JSXIdentifier n) attrs chs loc) s = s"
    using assms by simp
  have "visitJSXElement file (JSXElement (JSXIdentifier n) attrs chs loc) s
      = fold (classify file) (elements (JSXElement (JSXIdentifier n) attrs chs loc)) s"
    by (rule visit_elements)
  then have "visitJSXElement file (JSXElement (JSXIdentifier n) attrs chs loc) s
      = fold (classify file) (concat (map attribute_elements attrs) @ concat (map child_elements chs)) s"
    using c by (simp del: classify.simps)
  with c show ?thesis by (simp del: classify.simps)
qed

text \<open>
  \<open><MyButton role="button"><button>Ok</button></MyButton>\<close> in the first listing:
  nothing for the component, one suggestion for the button inside.
\<close>

lemma component_guard_example:
  "classify ''App.jsx''
     (JSXElement (JSXIdentifier ''MyButton'')
        [JSXAttribute (AttrIdentifier ''role'') (StringLiteralValue ''button'')]
        [JSXChildElement (JSXElement (JSXIdentifier ''button'') [] [JSXText ''Ok''] (Some 4))]
        (Some 3)) [] = []
   \<and> map dataCy (visitJSXElement ''App.jsx''
     (JSXElement (JSXIdentifier ''MyButton'')
        [JSXAttribute (AttrIdentifier ''role'') (StringLiteralValue ''button'')]
        [JSXChildElement (JSXElement (JSXIdentifier ''button'') [] [JSXText ''Ok''] (Some 4))]
        (Some 3)) []) = [''button-ok-0'']"
proof -
  have h: "starts_upper ''MyButton''" by (simp add: starts_upper_def)
  have v: "map dataCy (fold (traverse_child ''App.jsx'')
      [JSXChildElement (JSXElement (JSXIdentifier ''button'') [] [JSXText ''Ok''] (Some 4))]
      (fold (traverse_attribute ''App.jsx'')
        [JSXAttribute (AttrIdentifier ''role'') (StringLiteralValue ''button'')] []))
      = [''button-ok-0'']"
    by code_simp
  show ?thesis
    using component_guard [OF h, of "''App.jsx''"
        "[JSXAttribute (AttrIdentifier ''role'') (StringLiteralValue ''button'')]"
        "[JSXChildElement (JSXElement (JSXIdentifier ''button'') [] [JSXText ''Ok''] (Some 4))]"
        "Some 3" "[]"] v
    by (simp only:)
qed

text \<open>
  Claim C2. The code departs from it in three places. The second listing has no
  component check, so it pushes a suggestion for \<open><MyButton role="button" />\<close>. The
  check of the first listing looks at identifiers only, so \<open><UI.Button role="button" />\<close>
  gets the suggestion \<open>el-0\<close>; and it knows the letters \<open>A\<close>-\<open>Z\<close> only, so an element
  named with a capital E acute (U+00C9) followed by \<open>a\<close> gets one as well.
\<close>

theorem component_emitted:
  "map dataCy (extractSuggestionsFromAST_second
       [JSXElement (JSXIdentifier ''MyButton'') [JSXAttribute (AttrIdentifier ''role'') (StringLiteralValue ''button'')] [] None] [] ''App.jsx'')
     = [''mybutton-mybutton-0'']
   \<and> map dataCy (extractSuggestionsFromAST
       [JSXElement (JSXMemberExpression (JSXIdentifier ''UI'') ''Button'') [JSXAttribute (AttrIdentifier ''role'') (StringLiteralValue ''button'')] [] None]
       [] ''App.jsx'')
     = [''el-0'']
   \<and> map dataCy (extractSuggestionsFromAST
       [JSXElement (JSXIdentifier (CHR 0xC9 # ''a'')) [JSXAttribute (AttrIdentifier ''role'') (StringLiteralValue ''button'')] [JSXText ''x''] None]
       [] ''App.jsx'')
     = [''a-x-0'']"
  by code_simp

text \<open>
  Claim C5. An element that has a \<open>data-cy\<close> attribute, with any value, gets no
  suggestion; and a file in which every element flagged as interactive has a \<open>data-cy\<close>
  attribute gives the empty list.
\<close>

theorem marked_element_skipped:
  "(JSXAttribute (AttrIdentifier ''data-cy'') v \<in> set attrs \<longrightarrow>
       classify file (JSXElement nm attrs chs loc) s = s)
   \<and> (list_all (\<lambda>e. flagged_interactive e \<longrightarrow> hasDataCy (attributes_of e)) (all_elements ast)
        \<longrightarrow> extractSuggestionsFromAST ast code file = [])"
proof -
  have "JSXAttribute (AttrIdentifier ''data-cy'') v \<in> set attrs \<Longrightarrow>
      classify file (JSXElement nm attrs chs loc) s = s"
    using hasDataCy_iff [of attrs] by (auto simp: Let_def)
  moreover have "list_all (\<lambda>e. flagged_interactive e \<longrightarrow> hasDataCy (attributes_of e)) (all_elements ast)
      \<Longrightarrow> extractSuggestionsFromAST ast code file = []"
  proof -
    assume a: "list_all (\<lambda>e. flagged_interactive e \<longrightarrow> hasDataCy (attributes_of e)) (all_elements ast)"
    have "\<And>e. flagged_interactive e \<longrightarrow> hasDataCy (attributes_of e) \<Longrightarrow> outcome_of e \<noteq> Suggested"
    proof -
      fix e
      assume "flagged_interactive e \<longrightarrow> hasDataCy (attributes_of e)"
      then show "outcome_of e \<noteq> Suggested"
        by (cases e) (auto simp: flagged_interactive_def split: if_splits)
    qed
    with a have "list_all (\<lambda>e. outcome_of e \<noteq> Suggested) (all_elements ast)"
      by (auto simp: list_all_iff)
    then show ?thesis by (simp add: extract_elements fold_classify_none)
  qed
  ultimately show ?thesis by blast
qed

text \<open>
  The button of the sample component that already has \<open>data-cy\<close>, alone and inside
  a \<open>div\<close>.
\<close>

theorem marked_element_skipped_witness:
  "classify ''App.jsx''
     (JSXElement (JSXIdentifier ''button'')
        [JSXAttribute (AttrIdentifier ''data-cy'') (StringLiteralValue ''existing-button'')]
        [JSXText ''Already Has Data-Cy''] (Some 86)) [] = []
   \<and> extractSuggestionsFromAST
       [JSXElement (JSXIdentifier ''div'') []
         [JSXChildElement (JSXElement (JSXIdentifier ''button'')
            [JSXAttribute (AttrIdentifier ''data-cy'') (StringLiteralValue ''existing-button'')]
            [JSXText ''Already Has Data-Cy''] (Some 86))] (Some 16)]
       [] ''App.jsx'' = []"
proof -
  let ?b = "JSXElement (JSXIdentifier ''button'')
        [JSXAttribute (AttrIdentifier ''data-cy'') (StringLiteralValue ''existing-button'')]
        [JSXText ''Already Has Data-Cy''] (Some 86)"
  let ?ast = "[JSXElement (JSXIdentifier ''div'') [] [JSXChildElement ?b] (Some 16)]"
  have h: "list_all (\<lambda>e. flagged_interactive e \<longrightarrow> hasDataCy (attributes_of e)) (all_elements ?ast)"
    by code_simp
  show ?thesis
    using marked_element_skipped [of "StringLiteralValue ''existing-button''"
        "[JSXAttribute (AttrIdentifier ''data-cy'') (StringLiteralValue ''existing-button'')]"
        "''App.jsx''" "JSXIdentifier ''button''" "[JSXText ''Already Has Data-Cy'']" "Some 86" "[]"
        ?ast "[]"] h
    by simp
qed

lemma childText_claimed:
  "list_all plain_child chs \<Longrightarrow> childText chs = claimed_child_text chs"
proof (induction chs rule: childText.induct)
  case 1
  then show ?case by (simp add: claimed_child_text_def)
next
  case (2 v chs)
  then show ?case by (simp add: claimed_child_text_def text_bearing_def)
next
  case (3 s chs)
  then show ?case by (simp add: claimed_child_text_def text_bearing_def)
qed (simp_all add: claimed_child_text_def text_bearing_def trim_Nil)

lemma attr_val_static:
  "toString (attr_val (JSXAttribute n v)) = static_text v
   \<and> truthy (attr_val (JSXAttribute n v)) = (static_text v \<noteq> [])"
proof (cases v)
  case (JSXExpressionContainerValue e)
  then show ?thesis
    by (cases e) (auto simp: attr_val_def js_or_def String_of_nat_nonempty unat_eq_0)
qed (auto simp: attr_val_def js_or_def)

lemma attr_text_none:
  "\<not> list_ex (\<lambda>a. attr_name_name a = Some name) attrs \<Longrightarrow> attr_text name attrs = []"
  by (induction name attrs rule: attr_text.induct) auto

lemma attr_val_truthy: "truthy (attr_val a) = (toString (attr_val a) \<noteq> [])"
proof (cases a)
  case (JSXAttribute n v)
  then show ?thesis using attr_val_static [of n v] by simp
next
  case (JSXSpreadAttribute e)
  then show ?thesis by (simp add: attr_val_def js_or_def)
qed

lemma attr_text_Cons:
  "attr_text name (a # attrs)
     = (if list_ex (\<lambda>a. attr_name_name a = Some name) attrs then attr_text name attrs
        else if attr_name_name a = Some name then toString (attr_val a) else [])"
proof (cases a)
  case (JSXAttribute n v)
  then show ?thesis
    using attr_val_static [of n v] by (cases n) (auto simp: attr_text_none)
next
  case (JSXSpreadAttribute e)
  then show ?thesis by (simp add: attr_text_none)
qed

lemma hint_fold:
  assumes step: "\<And>a h. sel (forEach_step a h)
      = (if attr_name_name a = Some name then attr_val a else sel h)"
  shows "toString (sel (fold forEach_step attrs h))
     = (if list_ex (\<lambda>a. attr_name_name a = Some name) attrs
        then attr_text name attrs else toString (sel h))
   \<and> truthy (sel (fold forEach_step attrs h))
     = (if list_ex (\<lambda>a. attr_name_name a = Some name) attrs
        then attr_text name attrs \<noteq> [] else truthy (sel h))"
proof (induction attrs arbitrary: h)
  case Nil
  then show ?case by simp
next
  case (Cons a attrs)
  show ?case
    using Cons [of "forEach_step a h"]
    by (simp add: step attr_text_Cons attr_val_truthy del: attr_text.simps)
qed

lemma forEach_step_fields:
  "aria (forEach_step a h) = (if attr_name_name a = Some ''aria-label'' then attr_val a else aria h)"
  "placeholder (forEach_step a h)
     = (if attr_name_name a = Some ''placeholder'' then attr_val a else placeholder h)"
  "alt (forEach_step a h) = (if attr_name_name a = Some ''alt'' then attr_val a else alt h)"
  "title (forEach_step a h) = (if attr_name_name a = Some ''title'' then attr_val a else title h)"
  by (cases a; simp add: forEach_step_def Let_def)+

lemma hint_values:
  "toString (aria (attr_hints attrs)) = attr_text ''aria-label'' attrs"
  "truthy (aria (attr_hints attrs)) = (attr_text ''aria-label'' attrs \<noteq> [])"
  "toString (placeholder (attr_hints attrs)) = attr_text ''placeholder'' attrs"
  "truthy (placeholder (attr_hints attrs)) = (attr_text ''placeholder'' attrs \<noteq> [])"
  "toString (alt (attr_hints attrs)) = attr_text ''alt'' attrs"
  "truthy (alt (attr_hints attrs)) = (attr_text ''alt'' attrs \<noteq> [])"
  "toString (title (attr_hints attrs)) = attr_text ''title'' attrs"
  "truthy (title (attr_hints attrs)) = (attr_text ''title'' attrs \<noteq> [])"
  using hint_fold [of aria "''aria-label''" attrs, OF forEach_step_fields(1)]
    hint_fold [of placeholder "''placeholder''" attrs, OF forEach_step_fields(2)]
    hint_fold [of alt "''alt''" attrs, OF forEach_step_fields(3)]
    hint_fold [of title "''title''" attrs, OF forEach_step_fields(4)]
  by (simp_all add: attr_hints_def attr_text_none)

lemma toString_js_or: "toString (js_or a b) = (if truthy a then toString a else toString b)"
  by (simp add: js_or_def)

lemma nameSource_sources:
  "nameSource (tagOf nm) attrs chs = first_nonempty (label_sources (childText chs) nm attrs)"
proof -
  have t: "toString (tag_value (tagOf nm)) = tag_text nm"
    "truthy (tag_value (tagOf nm)) = (tag_text nm \<noteq> [])"
    by (cases "tagOf nm"; simp add: tag_value_def tag_text_def)+
  show ?thesis
    by (simp add: nameSource_def Let_def toString_js_or hint_values t label_sources_def)
qed

text \<open>
  Where no child is a string literal in braces that is empty or has white space at an
  end, the hint of the record pushed for an element is the one the specification
  describes: the first non-empty string among the trimmed text of the first
  text-bearing child, the \<open>aria-label\<close>, \<open>placeholder\<close>, \<open>alt\<close> and \<open>title\<close> attributes,
  the tag, and the empty string.
\<close>

lemma label_hint_priority:
  assumes "list_all plain_child chs"
  shows "text_hint (suggestion_for file (JSXElement nm attrs chs loc) k) = claimed_hint nm attrs chs"
  using childText_claimed [OF assms] by (simp add: nameSource_sources claimed_hint_def)

text \<open>
  An \<open>input\<close> with a \<open>title\<close> and an \<open>aria-label\<close> and no text: the \<open>aria-label\<close> wins.
\<close>

lemma label_hint_priority_example:
  "text_hint (suggestion_for ''Form.jsx''
     (JSXElement (JSXIdentifier ''input'')
        [JSXAttribute (AttrIdentifier ''type'') (StringLiteralValue ''email''),
         JSXAttribute (AttrIdentifier ''title'') (StringLiteralValue ''Your address''),
         JSXAttribute (AttrIdentifier ''aria-label'') (StringLiteralValue ''Email address'')]
        [] (Some 41)) 1) = ''Email address''"
proof -
  let ?attrs = "[JSXAttribute (AttrIdentifier ''type'') (StringLiteralValue ''email''),
         JSXAttribute (AttrIdentifier ''title'') (StringLiteralValue ''Your address''),
         JSXAttribute (AttrIdentifier ''aria-label'') (StringLiteralValue ''Email address'')]"
  have h: "list_all plain_child []" by simp
  have s: "claimed_hint (JSXIdentifier ''input'') ?attrs [] = ''Email address''"
    by code_simp
  show ?thesis
    using label_hint_priority [OF h, of "''Form.jsx''" "JSXIdentifier ''input''" ?attrs "Some 41" 1] s
    by (simp only:)
qed

text \<open>
  Claim C4. The code departs from it at a child that is a string literal in braces:
  the loop takes the literal as written and leaves at it, where for a JSX text it
  trims and passes over blank text. For \<open><button>{" Save "}</button>\<close> the hint is the
  literal with its spaces, where the claim gives \<open>Save\<close>; for
  \<open><button aria-label="Close">{" "}Save</button>\<close> the hint is one space and the slug
  \<open>button-0\<close>, where the claim gives \<open>Save\<close>.
\<close>

theorem brace_literal_hint:
  "map text_hint (extractSuggestionsFromAST
       [JSXElement (JSXIdentifier ''button'') []
          [JSXExpressionContainer (StringLiteral '' Save '')] (Some 5)] [] ''Form.jsx'')
     = ['' Save '']
   \<and> claimed_hint (JSXIdentifier ''button'') []
         [JSXExpressionContainer (StringLiteral '' Save '')] = ''Save''
   \<and> map (\<lambda>x. (text_hint x, dataCy x)) (extractSuggestionsFromAST
       [JSXElement (JSXIdentifier ''button'')
          [JSXAttribute (AttrIdentifier ''aria-label'') (StringLiteralValue ''Close'')]
          [JSXExpressionContainer (StringLiteral '' ''), JSXText ''Save''] (Some 5)]
       [] ''Form.jsx'')
     = [('' '', ''button-0'')]
   \<and> claimed_hint (JSXIdentifier ''button'')
         [JSXAttribute (AttrIdentifier ''aria-label'') (StringLiteralValue ''Close'')]
         [JSXExpressionContainer (StringLiteral '' ''), JSXText ''Save''] = ''Save''"
  by code_simp

text \<open>
  Claim C10. In the suggestions of one file, the slug at position \<open>i\<close> is made with
  ordinal \<open>i\<close>; and in a run over several files the suggestions of a file are those of
  \<open>extractSuggestionsFromAST\<close> on that file alone, whatever was scanned before, so the
  ordinals start again at 0 in every file.
\<close>

theorem ordinal_is_position_in_file:
  "(i < length (extractSuggestionsFromAST ast code file) \<longrightarrow>
      dataCy (extractSuggestionsFromAST ast code file ! i)
        = generateTag (tag_info (tag_name (extractSuggestionsFromAST ast code file ! i))
            (text_hint (extractSuggestionsFromAST ast code file ! i)) i))
   \<and> allSuggestions (before @ (file, Parsed ast code) # after) []
        = allSuggestions before [] @ extractSuggestionsFromAST ast code file
            @ allSuggestions after []"
proof -
  have "allSuggestions (before @ (file, Parsed ast code) # after) []
      = allSuggestions after (allSuggestions before [] @ extractSuggestionsFromAST ast code file)"
    by (simp add: allSuggestions_append)
  also have "\<dots> = (allSuggestions before [] @ extractSuggestionsFromAST ast code file)
      @ allSuggestions after []"
    by (rule allSuggestions_acc)
  finally show ?thesis
    using extract_ordinals [of ast code "file"] by (simp add: ordinals_ok_def)
qed

text \<open>
  A run over two files: the ordinals of the second file start at 0.
\<close>

theorem ordinal_is_position_in_file_witness:
  "dataCy (extractSuggestionsFromAST
      [JSXElement (JSXIdentifier ''a'') [] [JSXText ''Learn More''] (Some 26),
       JSXElement (JSXIdentifier ''a'') [] [JSXText ''Contact Us''] (Some 29)] [] ''Nav.jsx'' ! 1)
     = generateTag (tag_info ''a'' ''Contact Us'' 1)
   \<and> map dataCy (allSuggestions
       [(''Form.jsx'', Parsed [JSXElement (JSXIdentifier ''button'') [] [JSXText ''Save''] (Some 20)] []),
        (''Nav.jsx'', Parsed
          [JSXElement (JSXIdentifier ''a'') [] [JSXText ''Learn More''] (Some 26),
           JSXElement (JSXIdentifier ''a'') [] [JSXText ''Contact Us''] (Some 29)] [])] [])
     = [''button-save-0'', ''link-learn-more-0'', ''link-contact-us-1'']"
proof -
  let ?nav = "[JSXElement (JSXIdentifier ''a'') [] [JSXText ''Learn More''] (Some 26),
       JSXElement (JSXIdentifier ''a'') [] [JSXText ''Contact Us''] (Some 29)]"
  let ?form = "[JSXElement (JSXIdentifier ''button'') [] [JSXText ''Save''] (Some 20)]"
  have e: "extractSuggestionsFromAST ?nav [] ''Nav.jsx'' =
      [\<lparr>file_of = ''Nav.jsx'', line_of = Some 26, tag_name = ''a'', text_hint = ''Learn More'',
         dataCy = ''link-learn-more-0''\<rparr>,
       \<lparr>file_of = ''Nav.jsx'', line_of = Some 29, tag_name = ''a'', text_hint = ''Contact Us'',
         dataCy = ''link-contact-us-1''\<rparr>]"
    by code_simp
  have b: "map dataCy (allSuggestions [(''Form.jsx'', Parsed ?form [])] []) = [''button-save-0'']"
    by code_simp
  show ?thesis
    using ordinal_is_position_in_file [of 1 ?nav "[]" "''Nav.jsx''"
        "[(''Form.jsx'', Parsed ?form [])]" "[]"] b
    by (simp add: e)
qed

text \<open>
  Claim C9, as the code has it. In the suggestions of one file, two suggestions at
  different positions have different slugs whenever one of the two slugs is shorter
  than 60 characters, that is, was not cut by \<open>slice(0, 60)\<close>.
\<close>

theorem slugs_distinct_within_file:
  assumes "i \<noteq> j"
    and "i < length (extractSuggestionsFromAST ast code file)"
    and "j < length (extractSuggestionsFromAST ast code file)"
    and "length (dataCy (extractSuggestionsFromAST ast code file ! i)) < 60"
  shows "dataCy (extractSuggestionsFromAST ast code file ! i)
     \<noteq> dataCy (extractSuggestionsFromAST ast code file ! j)"
proof
  let ?out = "extractSuggestionsFromAST ast code file"
  assume eq: "dataCy (?out ! i) = dataCy (?out ! j)"
  have oi: "dataCy (?out ! i) = generateTag (tag_info (tag_name (?out ! i)) (text_hint (?out ! i)) i)"
    and oj: "dataCy (?out ! j) = generateTag (tag_info (tag_name (?out ! j)) (text_hint (?out ! j)) j)"
    using extract_ordinals [of ast code "file"] assms(2,3) by (simp_all add: ordinals_ok_def)
  have "i = j"
    using generateTag_inj_ordinal [of "tag_name (?out ! i)" "text_hint (?out ! i)" i
        "tag_name (?out ! j)" "text_hint (?out ! j)" j] eq oi oj assms(4)
    by simp
  with assms(1) show False by simp
qed

text \<open>
  Two buttons with the same text in one file get the ordinals 0 and 1.
\<close>

theorem slugs_distinct_within_file_witness:
  "dataCy (extractSuggestionsFromAST
      [JSXElement (JSXIdentifier ''button'') [] [JSXText ''Save''] (Some 3),
       JSXElement (JSXIdentifier ''button'') [] [JSXText ''Save''] (Some 9)] [] ''Form.jsx'' ! 0)
   \<noteq> dataCy (extractSuggestionsFromAST
      [JSXElement (JSXIdentifier ''button'') [] [JSXText ''Save''] (Some 3),
       JSXElement (JSXIdentifier ''button'') [] [JSXText ''Save''] (Some 9)] [] ''Form.jsx'' ! 1)"
proof -
  let ?ast = "[JSXElement (JSXIdentifier ''button'') [] [JSXText ''Save''] (Some 3),
       JSXElement (JSXIdentifier ''button'') [] [JSXText ''Save''] (Some 9)]"
  have h1: "(0::nat) \<noteq> 1" by simp
  have l: "length (extractSuggestionsFromAST ?ast [] ''Form.jsx'') = 2" by code_simp
  have h2: "0 < length (extractSuggestionsFromAST ?ast [] ''Form.jsx'')" by (simp add: l)
  have h3: "1 < length (extractSuggestionsFromAST ?ast [] ''Form.jsx'')" by (simp add: l)
  have h4: "length (dataCy (extractSuggestionsFromAST ?ast [] ''Form.jsx'' ! 0)) < 60"
    by code_simp
  show ?thesis
    by (rule slugs_distinct_within_file [OF h1 h2 h3 h4])
qed

text \<open>
  Claim C9 as stated fails twice: two files of one run both start at ordinal 0, so
  equal buttons in them get equal slugs; and in one file a long text pushes the
  ordinal beyond the 60 characters kept, so two such buttons get equal slugs.
\<close>

theorem slug_collision_counterexample:
  "map dataCy (allSuggestions
       [(''Form.jsx'', Parsed [JSXElement (JSXIdentifier ''button'') [] [JSXText ''Save''] (Some 20)] []),
        (''Dialog.jsx'', Parsed [JSXElement (JSXIdentifier ''button'') [] [JSXText ''Save''] (Some 7)] [])] [])
     = [''button-save-0'', ''button-save-0'']
   \<and> map dataCy (extractSuggestionsFromAST
       [JSXElement (JSXIdentifier ''button'') []
          [JSXText ''Acknowledge international telecommunications infrastructure responsibilities'']
          (Some 3),
        JSXElement (JSXIdentifier ''button'') []
          [JSXText ''Acknowledge international telecommunications infrastructure responsibilities'']
          (Some 9)] [] ''Form.jsx'')
     = [''button-acknowledge-international-telecommunications-infrastr'',
        ''button-acknowledge-international-telecommunications-infrastr'']"
  by code_simp

end
